theory Spec2Isabelle
  imports Complex_Main "HOL-Library.Char_ord"
begin

section \<open>Strings and character classes\<close>

text \<open>
  A JavaScript string is modelled as a \<^typ>\<open>string\<close>, one \<^typ>\<open>char\<close> per code unit;
  the model covers the code units U+0000 to U+00FF. Numbers are exact: the similarity is a
  \<^typ>\<open>rat\<close>, the score an \<^typ>\<open>int\<close>; the rounding of IEEE doubles inside the
  division and the product is not modelled.
\<close>

definition LF :: char where "LF = CHR 0x0A"
definition CR :: char where "CR = CHR 0x0D"
definition TAB :: char where "TAB = CHR 0x09"
definition SP :: char where "SP = CHR 0x20"
definition DQ :: char where "DQ = CHR 0x22"

text \<open>The regex class \<open>\s\<close>, which is also what \<open>String.prototype.trim\<close> removes:
  TAB, LF, VT, FF, CR, space and the no-break space.\<close>

definition is_space :: "char \<Rightarrow> bool" where
  "is_space c = (c = CHR 0x09 \<or> c = CHR 0x0A \<or> c = CHR 0x0B \<or> c = CHR 0x0C \<or> c = CHR 0x0D
     \<or> c = CHR 0x20 \<or> c = CHR 0xA0)"

text \<open>The class \<open>[ \t]\<close>.\<close>

definition is_blank :: "char \<Rightarrow> bool" where
  "is_blank c = (c = SP \<or> c = TAB)"

definition is_digit :: "char \<Rightarrow> bool" where
  "is_digit c = (CHR ''0'' \<le> c \<and> c \<le> CHR ''9'')"

definition is_upper :: "char \<Rightarrow> bool" where
  "is_upper c = (CHR ''A'' \<le> c \<and> c \<le> CHR ''Z'')"

definition is_lower :: "char \<Rightarrow> bool" where
  "is_lower c = (CHR ''a'' \<le> c \<and> c \<le> CHR ''z'')"

text \<open>\<open>[a-zA-Z_]\<close>, and \<open>[a-zA-Z0-9_]\<close>, which is the regex class \<open>\w\<close> too.\<close>

definition is_ident_start :: "char \<Rightarrow> bool" where
  "is_ident_start c = (is_lower c \<or> is_upper c \<or> c = CHR ''_'')"

definition is_word :: "char \<Rightarrow> bool" where
  "is_word c = (is_ident_start c \<or> is_digit c)"

text \<open>\<open>[+\-*\/%=<>!&|]\<close>\<close>

definition is_op_char :: "char \<Rightarrow> bool" where
  "is_op_char c = (c \<in> set ''+-*/%=<>!&|'')"

text \<open>The single-character alternatives \<open>\(|\)|\{|}|\[|]|;|,\<close>.\<close>

definition is_punct :: "char \<Rightarrow> bool" where
  "is_punct c = (c \<in> set ''(){}[];,'')"

text \<open>\<open>String.prototype.trim\<close>\<close>

definition trim :: "string \<Rightarrow> string" where
  "trim s = rev (dropWhile is_space (rev (dropWhile is_space s)))"

text \<open>\<open>toLowerCase\<close> on one code unit below U+0100: the ASCII capitals and the Latin-1
  capitals U+00C0 to U+00DE (the multiplication sign U+00D7 apart) move up by 32.\<close>

definition lower_char :: "char \<Rightarrow> char" where
  "lower_char c =
     (if is_upper c \<or> (CHR 0xC0 \<le> c \<and> c \<le> CHR 0xDE \<and> c \<noteq> CHR 0xD7)
      then char_of (of_char c + (32::nat)) else c)"

definition toLowerCase :: "string \<Rightarrow> string" where
  "toLowerCase s = map lower_char s"

text \<open>\<open>s.replace(/[cls]+/g, ' ')\<close>: every maximal run of characters of the class becomes
  one space.\<close>

function collapse_runs :: "(char \<Rightarrow> bool) \<Rightarrow> string \<Rightarrow> string" where
  "collapse_runs cls [] = []"
| "collapse_runs cls (c # cs) =
     (if cls c then SP # collapse_runs cls (dropWhile cls cs) else c # collapse_runs cls cs)"
  by pat_completeness auto
termination
  by (relation "measure (\<lambda>(cls, s). length s)") (auto simp: le_imp_less_Suc length_dropWhile_le)

text \<open>\<open>s.split('\n')\<close> and \<open>lines.join('\n')\<close>\<close>

fun split_lines :: "string \<Rightarrow> string list" where
  "split_lines [] = [[]]"
| "split_lines (c # cs) =
     (if c = LF then [] # split_lines cs
      else (case split_lines cs of l # ls \<Rightarrow> (c # l) # ls | [] \<Rightarrow> [[c]]))"

fun join_lines :: "string list \<Rightarrow> string" where
  "join_lines [] = []"
| "join_lines [l] = l"
| "join_lines (l # ls) = l @ LF # join_lines ls"

section \<open>runCode.ts: the output comparator\<close>

text \<open>\<open>s.replace(/\r\n/g, '\n')\<close>\<close>

fun crlf_to_lf :: "string \<Rightarrow> string" where
  "crlf_to_lf (c # d # cs) =
     (if c = CR \<and> d = LF then LF # crlf_to_lf cs else c # crlf_to_lf (d # cs))"
| "crlf_to_lf cs = cs"

text \<open>\<open>s.replace(/\r/g, '\n')\<close>\<close>

definition cr_to_lf :: "string \<Rightarrow> string" where
  "cr_to_lf s = map (\<lambda>c. if c = CR then LF else c) s"

definition normalizeOutput :: "string \<Rightarrow> string" where
  "normalizeOutput s =
     trim (join_lines (map trim (split_lines (collapse_runs is_blank (cr_to_lf (crlf_to_lf s))))))"

definition outputsMatch :: "string \<Rightarrow> string \<Rightarrow> bool" where
  "outputsMatch actual expected = (normalizeOutput actual = normalizeOutput expected)"

section \<open>runCode.ts: the execution collaborator\<close>

record RunResult =
  success :: bool
  stdout :: string
  stderr :: string
  error :: "string option"

text \<open>What the one \<open>fetch\<close> of \<open>runCCode\<close> can do: throw (an \<open>Error\<close> with its message,
  or some other value), answer with a status that is not ok, or answer ok with a body whose
  parsing throws or gives the fields \<open>message\<close> and \<open>run\<close>.\<close>

record PistonRun =
  run_stdout :: "string option"
  run_stderr :: "string option"
  run_code :: "int option"

datatype thrown = ErrorObject string | OtherValue

datatype fetch_outcome =
    FetchThrows thrown
  | NotOk nat
  | JsonThrows thrown
  | JsonData "string option" "PistonRun option"

text \<open>\<open>x ?? d\<close>\<close>

definition nullish :: "'a option \<Rightarrow> 'a \<Rightarrow> 'a" where
  "nullish x d = (case x of None \<Rightarrow> d | Some v \<Rightarrow> v)"

text \<open>The decimal rendering of a number inside a template string.\<close>

fun digits_of :: "nat \<Rightarrow> string" where
  "digits_of n =
     (if n < 10 then [char_of (48 + n)] else digits_of (n div 10) @ [char_of (48 + n mod 10)])"

definition string_of_int :: "int \<Rightarrow> string" where
  "string_of_int i = (if i < 0 then CHR ''-'' # digits_of (nat (- i)) else digits_of (nat i))"

definition caught :: "thrown \<Rightarrow> RunResult" where
  "caught t = \<lparr> success = False, stdout = [], stderr = [],
     error = Some (case t of ErrorObject m \<Rightarrow> m | OtherValue \<Rightarrow> ''Failed to run code'') \<rparr>"

definition runCCode :: "(string \<Rightarrow> string \<Rightarrow> fetch_outcome) \<Rightarrow> string \<Rightarrow> string \<Rightarrow> RunResult" where
  "runCCode fetch code stdin_text =
     (case fetch code stdin_text of
        FetchThrows t \<Rightarrow> caught t
      | NotOk status \<Rightarrow>
          \<lparr> success = False, stdout = [], stderr = [],
            error = Some (''API error: '' @ digits_of status) \<rparr>
      | JsonThrows t \<Rightarrow> caught t
      | JsonData message run \<Rightarrow>
          (if message \<noteq> None \<and> message \<noteq> Some [] then
             \<lparr> success = False, stdout = [], stderr = nullish message [], error = message \<rparr>
           else
             let out = (case run of None \<Rightarrow> [] | Some r \<Rightarrow> nullish (run_stdout r) []);
                 err = (case run of None \<Rightarrow> [] | Some r \<Rightarrow> nullish (run_stderr r) []);
                 exitCode = (case run of None \<Rightarrow> - 1 | Some r \<Rightarrow> nullish (run_code r) (- 1))
             in \<lparr> success = (exitCode = 0), stdout = out,
                  stderr = (if err \<noteq> [] then err
                            else if exitCode \<noteq> 0 then ''Exit code: '' @ string_of_int exitCode
                            else []),
                  error = None \<rparr>))"

section \<open>validation.ts: normalizer and tokenizer\<close>

text \<open>\<open>s.replace(/\/\/[^\n]*/g, '')\<close>: from each \<open>//\<close> up to the next line feed.\<close>

function strip_line_comments :: "string \<Rightarrow> string" where
  "strip_line_comments (c # d # cs) =
     (if c = CHR ''/'' \<and> d = CHR ''/''
      then strip_line_comments (dropWhile (\<lambda>x. x \<noteq> LF) cs)
      else c # strip_line_comments (d # cs))"
| "strip_line_comments [c] = [c]"
| "strip_line_comments [] = []"
  by pat_completeness auto
termination
  by (relation "measure length") (auto simp: le_imp_less_Suc length_dropWhile_le less_Suc_eq_le le_SucI)

text \<open>The text behind the first \<open>*/\<close>, if there is one.\<close>

fun after_close :: "string \<Rightarrow> string option" where
  "after_close (c # d # cs) =
     (if c = CHR ''*'' \<and> d = CHR ''/'' then Some cs else after_close (d # cs))"
| "after_close cs = None"

lemma after_close_length: "after_close s = Some r \<Longrightarrow> length r < length s"
  by (induction s rule: after_close.induct) (auto split: if_splits)

text \<open>\<open>s.replace(/\/\*[\s\S]*?\*\//g, '')\<close>: from each \<open>/*\<close> to the first \<open>*/\<close> behind it;
  a \<open>/*\<close> that is never closed stays.\<close>

function strip_block_comments :: "string \<Rightarrow> string" where
  "strip_block_comments (c # d # cs) =
     (if c = CHR ''/'' \<and> d = CHR ''*'' then
        (case after_close cs of
           Some r \<Rightarrow> strip_block_comments r
         | None \<Rightarrow> c # strip_block_comments (d # cs))
      else c # strip_block_comments (d # cs))"
| "strip_block_comments [c] = [c]"
| "strip_block_comments [] = []"
  by pat_completeness auto
termination
  by (relation "measure length") (auto dest: after_close_length)

definition normalizeCode :: "string \<Rightarrow> string" where
  "normalizeCode code =
     trim (collapse_runs is_space (strip_block_comments (strip_line_comments code)))"

text \<open>The \<open>exec\<close> loop of \<open>getTokens\<close>: at each position the alternatives are tried in the
  order of the regex, each of the first three taking the longest run; a character that starts
  no alternative is skipped.\<close>

function scan_tokens :: "string \<Rightarrow> string list" where
  "scan_tokens [] = []"
| "scan_tokens (c # cs) =
     (if is_ident_start c then
        (c # takeWhile is_word cs) # scan_tokens (dropWhile is_word cs)
      else if is_digit c then
        (c # takeWhile is_digit cs) # scan_tokens (dropWhile is_digit cs)
      else if is_op_char c then
        (c # takeWhile is_op_char cs) # scan_tokens (dropWhile is_op_char cs)
      else if is_punct c then [c] # scan_tokens cs
      else scan_tokens cs)"
  by pat_completeness auto
termination
  by (relation "measure length") (auto simp: le_imp_less_Suc length_dropWhile_le)

definition getTokens :: "string \<Rightarrow> string list" where
  "getTokens code = scan_tokens (normalizeCode code)"

section \<open>validation.ts: similarity scorer\<close>

text \<open>\<open>new Set(xs)\<close>: the elements in the order of their first occurrence.\<close>

fun set_add :: "'a list \<Rightarrow> 'a \<Rightarrow> 'a list" where
  "set_add s x = (if x \<in> set s then s else s @ [x])"

definition new_Set :: "'a list \<Rightarrow> 'a list" where
  "new_Set xs = foldl set_add [] xs"

text \<open>The counting loop \<open>for (const t of setA) if (setB.has(t)) match++\<close>.\<close>

definition count_matches :: "'a list \<Rightarrow> 'a list \<Rightarrow> nat" where
  "count_matches setA setB = foldl (\<lambda>m t. if t \<in> set setB then m + 1 else m) 0 setA"

definition tokenSimilarity :: "string list \<Rightarrow> string list \<Rightarrow> rat" where
  "tokenSimilarity a b =
     (if a = [] \<and> b = [] then 1
      else if a = [] \<or> b = [] then 0
      else
        let setA = new_Set (map toLowerCase a);
            setB = new_Set (map toLowerCase b);
            match = count_matches setA setB;
            union = new_Set (setA @ setB)
        in of_nat match / of_nat (length union))"

section \<open>validation.ts: structural checker\<close>

text \<open>
  The patterns of \<open>checkStructure\<close> are matched by hand-written matchers. \<open>lit k s\<close> is the
  text behind the literal \<open>k\<close> at the start of \<open>s\<close>, \<open>one_of cls s\<close> the text behind one
  character of \<open>cls\<close>. Every \<open>\s*\<close> of these patterns stands before a character that is
  no white space, so taking the longest run of white space loses no match.
\<close>

fun lit :: "string \<Rightarrow> string \<Rightarrow> string option" where
  "lit [] s = Some s"
| "lit (k # ks) [] = None"
| "lit (k # ks) (c # cs) = (if k = c then lit ks cs else None)"

fun one_of :: "string \<Rightarrow> string \<Rightarrow> string option" where
  "one_of cls [] = None"
| "one_of cls (c # cs) = (if c \<in> set cls then Some cs else None)"

definition skip_ws :: "string \<Rightarrow> string" where
  "skip_ws s = dropWhile is_space s"

text \<open>\<open>kw\s*\(\<close> at the start of the text.\<close>

definition call_at :: "string \<Rightarrow> string \<Rightarrow> bool" where
  "call_at kw s = (case lit kw s of None \<Rightarrow> False | Some r \<Rightarrow> lit ''('' (skip_ws r) \<noteq> None)"

text \<open>\<open>(printf|scanf|fgets)\s*\(\<close> at the start of the text.\<close>

definition io_call_at :: "string \<Rightarrow> bool" where
  "io_call_at s = (call_at ''printf'' s \<or> call_at ''scanf'' s \<or> call_at ''fgets'' s)"

text \<open>\<open>#\s*include\s*[<"]stdio\.h[>"]\<close> at the start of the text.\<close>

definition include_at :: "string \<Rightarrow> bool" where
  "include_at s =
     (case lit ''#'' s of None \<Rightarrow> False | Some r1 \<Rightarrow>
      (case lit ''include'' (skip_ws r1) of None \<Rightarrow> False | Some r2 \<Rightarrow>
       (case one_of [CHR ''<'', DQ] (skip_ws r2) of None \<Rightarrow> False | Some r3 \<Rightarrow>
        (case lit ''stdio.h'' r3 of None \<Rightarrow> False | Some r4 \<Rightarrow>
           one_of [CHR ''>'', DQ] r4 \<noteq> None))))"

text \<open>\<open>%\s*2\<close> at the start of the text.\<close>

definition mod2_at :: "string \<Rightarrow> bool" where
  "mod2_at s = (case lit ''%'' s of None \<Rightarrow> False | Some r \<Rightarrow> lit ''2'' (skip_ws r) \<noteq> None)"

text \<open>\<open>/p/.test(s)\<close>: the pattern matches at some position of the text.\<close>

primrec regex_test :: "(string \<Rightarrow> bool) \<Rightarrow> string \<Rightarrow> bool" where
  "regex_test p [] = False"
| "regex_test p (c # cs) = (p (c # cs) \<or> regex_test p cs)"

text \<open>\<open>/\bp/.test(s)\<close> for a pattern that begins with a word character: it matches at a
  position whose preceding character, if any, is no word character. The flag says whether
  the preceding character is one.\<close>

primrec regex_test_b_from :: "(string \<Rightarrow> bool) \<Rightarrow> bool \<Rightarrow> string \<Rightarrow> bool" where
  "regex_test_b_from p prev_word [] = False"
| "regex_test_b_from p prev_word (c # cs) =
     ((\<not> prev_word \<and> p (c # cs)) \<or> regex_test_b_from p (is_word c) cs)"

definition regex_test_b :: "(string \<Rightarrow> bool) \<Rightarrow> string \<Rightarrow> bool" where
  "regex_test_b p s = regex_test_b_from p False s"

text \<open>\<open>(s.match(/c/g) || []).length\<close>\<close>

definition count_char :: "char \<Rightarrow> string \<Rightarrow> nat" where
  "count_char c s = length (filter (\<lambda>x. x = c) s)"

text \<open>One rule of the checker: when it fires, its message is pushed and its penalty added.\<close>

definition rule :: "bool \<Rightarrow> string \<Rightarrow> int \<Rightarrow> string list \<times> int \<Rightarrow> string list \<times> int" where
  "rule fires msg pen acc = (if fires then (fst acc @ [msg], snd acc + pen) else acc)"

definition checkStructure :: "string \<Rightarrow> string \<Rightarrow> string list \<times> int" where
  "checkStructure userCode refCode =
     (let acc0 = ([], 0);
          acc1 = rule (\<not> regex_test_b (call_at ''main'') userCode)
                   ''Missing main() function'' 25 acc0;
          usesIO = regex_test_b io_call_at refCode;
          hasInclude = regex_test include_at userCode;
          acc2 = rule (usesIO \<and> \<not> hasInclude) ''Missing #include <stdio.h>'' 15 acc1;
          openB = count_char (CHR ''{'') userCode;
          closeB = count_char (CHR ''}'') userCode;
          acc3 = rule (openB \<noteq> closeB) ''Unbalanced braces'' 20 acc2;
          acc4 = rule (regex_test_b (call_at ''switch'') refCode
                       \<and> \<not> regex_test_b (call_at ''switch'') userCode)
                   ''Problem requires switch statement'' 15 acc3;
          acc5 = rule (regex_test mod2_at refCode \<and> \<not> regex_test (\<lambda>s. lit ''%'' s \<noteq> None) userCode)
                   ''Use modulo operator (%) for even/odd check'' 10 acc4;
          acc6 = rule (regex_test_b (call_at ''fgets'') refCode
                       \<and> regex_test_b (call_at ''gets'') userCode)
                   ''Use fgets() instead of gets()'' 10 acc5
      in acc6)"

section \<open>validation.ts: grading\<close>

record ValidationResult =
  score :: int
  mistakes :: "string list"
  summary :: string
  matchedProblem :: "string option"
  userOutput :: "string option"
  expectedOutputR :: "string option"
  outputMatched :: "bool option"

record ProblemEntry =
  problem :: string
  solution :: string
  stdin :: "string option"
  expectedOutput :: "string option"

text \<open>
  To state which steps a grading call performs, \<open>compareToReference\<close> and \<open>validateCCode\<close>
  return, next to their result, the calls they made, in order.
\<close>

datatype call =
    Call_runCCode string string
  | Call_outputsMatch string string
  | Call_compareToReference string string
  | Call_tokenSimilarity "string list" "string list"
  | Call_checkStructure string string

text \<open>\<open>Math.round\<close>: to the nearest integer, a half going up.\<close>

definition Math_round :: "rat \<Rightarrow> int" where
  "Math_round x = \<lfloor>x + 1 / 2\<rfloor>"

definition compareToReference :: "string \<Rightarrow> string \<Rightarrow> ValidationResult \<times> call list" where
  "compareToReference userCode refCode =
     (let userNorm = normalizeCode userCode in
      if userNorm = [] then
        (\<lparr> score = 0, mistakes = [''No code provided''],
           summary = ''Please write your C solution.'', matchedProblem = None,
           userOutput = None, expectedOutputR = None, outputMatched = None \<rparr>, [])
      else
        let userTokens = getTokens userCode;
            refTokens = getTokens refCode;
            tokenSim = tokenSimilarity userTokens refTokens;
            structureCheck = checkStructure userCode refCode;
            score0 = Math_round (tokenSim * 60);
            score1 = score0 + max 0 (40 - snd structureCheck);
            score2 = min 100 score1;
            allMistakes0 = fst structureCheck;
            allMistakes1 =
              (if tokenSim < 3 / 10 \<and> allMistakes0 = []
               then allMistakes0 @ [''Solution structure differs significantly from expected approach'']
               else allMistakes0);
            allMistakes2 =
              (if score2 \<ge> 90 \<and> allMistakes1 = []
               then allMistakes1 @ [''No major issues - good match!'']
               else allMistakes1);
            summary_text =
              (if score2 \<ge> 80 then ''Your solution closely matches the reference.''
               else if score2 \<ge> 50
                 then ''Your solution has some differences from the expected approach.''
               else ''Significant differences from the reference solution. Review the issues.'')
        in (\<lparr> score = score2,
              mistakes = (if allMistakes2 \<noteq> [] then allMistakes2
                          else [''Review your implementation for minor improvements'']),
              summary = summary_text, matchedProblem = None,
              userOutput = None, expectedOutputR = None, outputMatched = None \<rparr>,
            [Call_tokenSimilarity userTokens refTokens, Call_checkStructure userCode refCode]))"

definition hasOutputCheck :: "ProblemEntry \<Rightarrow> bool" where
  "hasOutputCheck entry = (expectedOutput entry \<noteq> None \<and> expectedOutput entry \<noteq> Some [])"

text \<open>
  The problem store (\<open>./problems\<close>) is a collaborator: \<open>findMatchingProblem\<close> and the list
  that \<open>getStoredProblems\<close> returns after seeding are parameters, and so is the runner
  (\<open>runCCode\<close> with its \<open>fetch\<close>, or any other). The parameters are functions: a call of
  a collaborator returns.
\<close>

definition validateCCode ::
  "(string \<Rightarrow> ProblemEntry list \<Rightarrow> ProblemEntry option) \<Rightarrow> ProblemEntry list \<Rightarrow>
   (string \<Rightarrow> string \<Rightarrow> RunResult) \<Rightarrow> string \<Rightarrow> string \<Rightarrow> ValidationResult \<times> call list" where
  "validateCCode findMatchingProblem problems run problem_text code =
     (case findMatchingProblem problem_text problems of
        None \<Rightarrow>
          (\<lparr> score = 0,
             mistakes = [''No matching problem found in the database.'',
                         ''Paste the exact problem text from the list.''],
             summary = ''Could not find this problem. Use the exact problem description.'',
             matchedProblem = None,
             userOutput = None, expectedOutputR = None, outputMatched = None \<rparr>, [])
      | Some entry \<Rightarrow>
          if hasOutputCheck entry then
            let expected = nullish (expectedOutput entry) [];
                stdin_text = nullish (stdin entry) [];
                runResult = run code stdin_text
            in
            if \<not> success runResult \<and> stderr runResult \<noteq> [] then
              (\<lparr> score = 0,
                 mistakes = [''Code failed to compile or run.'',
                             join_lines (take 3 (split_lines (stderr runResult)))],
                 summary = ''Fix compilation/runtime errors first.'',
                 matchedProblem = Some (problem entry),
                 userOutput = (if stdout runResult \<noteq> [] then Some (stdout runResult) else None),
                 expectedOutputR = expectedOutput entry,
                 outputMatched = Some False \<rparr>,
               [Call_runCCode code stdin_text])
            else
              let matchedOutput = outputsMatch (stdout runResult) expected in
              if \<not> matchedOutput then
                (\<lparr> score = 0,
                   mistakes =
                     [''Wrong answer. Output does not match the expected result.'',
                      ''Your output: '' @ [DQ] @ take 200 (normalizeOutput (stdout runResult))
                        @ (if length (stdout runResult) > 200 then ''...'' else []) @ [DQ],
                      ''Expected: '' @ [DQ] @ take 200 (normalizeOutput expected)
                        @ (if length expected > 200 then ''...'' else []) @ [DQ]],
                   summary = ''Answer is incorrect. Fix your output first, then validate again.'',
                   matchedProblem = Some (problem entry),
                   userOutput = Some (stdout runResult),
                   expectedOutputR = expectedOutput entry,
                   outputMatched = Some False \<rparr>,
                 [Call_runCCode code stdin_text, Call_outputsMatch (stdout runResult) expected])
              else
                let cmp = compareToReference code (solution entry);
                    result = fst cmp
                in
                (result\<lparr> matchedProblem := Some (problem entry),
                         userOutput := Some (stdout runResult),
                         expectedOutputR := expectedOutput entry,
                         outputMatched := Some True,
                         summary :=
                           (if score result \<ge> 80
                              then ''Answer correct. Code structure and logic closely match the reference.''
                            else if score result \<ge> 50
                              then ''Answer correct. Code has some differences from the reference approach.''
                            else ''Answer correct. Consider improving code structure and logic.'') \<rparr>,
                 [Call_runCCode code stdin_text, Call_outputsMatch (stdout runResult) expected,
                  Call_compareToReference code (solution entry)] @ snd cmp)
          else
            let cmp = compareToReference code (solution entry);
                result = fst cmp
            in (result\<lparr> matchedProblem := Some (problem entry) \<rparr>,
                Call_compareToReference code (solution entry) # snd cmp))"

section \<open>Notions of the specification\<close>

text \<open>The set of lowercased tokens, and the Jaccard similarity as the specification words it:
  intersection size divided by union size.\<close>

definition lowered :: "string list \<Rightarrow> string set" where
  "lowered ts = toLowerCase ` set ts"

definition jaccard :: "string set \<Rightarrow> string set \<Rightarrow> rat" where
  "jaccard A B = of_nat (card (A \<inter> B)) / of_nat (card (A \<union> B))"

text \<open>The calls of a log that belong to similarity and structural scoring.\<close>

fun is_scoring_call :: "call \<Rightarrow> bool" where
  "is_scoring_call (Call_compareToReference u r) = True"
| "is_scoring_call (Call_tokenSimilarity a b) = True"
| "is_scoring_call (Call_checkStructure u r) = True"
| "is_scoring_call (Call_runCCode c i) = False"
| "is_scoring_call (Call_outputsMatch a e) = False"

definition scoring_calls :: "call list \<Rightarrow> call list" where
  "scoring_calls cs = filter is_scoring_call cs"

text \<open>The calls of a log that run the submission or compare its output.\<close>

fun is_output_call :: "call \<Rightarrow> bool" where
  "is_output_call (Call_runCCode c i) = True"
| "is_output_call (Call_outputsMatch a e) = True"
| "is_output_call (Call_compareToReference u r) = False"
| "is_output_call (Call_tokenSimilarity a b) = False"
| "is_output_call (Call_checkStructure u r) = False"

definition output_calls :: "call list \<Rightarrow> call list" where
  "output_calls cs = filter is_output_call cs"

text \<open>The two scoring paths of a grading call on a matched entry: the entry has no output
  check, or the run is not a failure with diagnostic text and its output matches.\<close>

definition scoring_path :: "(string \<Rightarrow> string \<Rightarrow> RunResult) \<Rightarrow> ProblemEntry \<Rightarrow> string \<Rightarrow> bool" where
  "scoring_path run entry code =
     (if hasOutputCheck entry then
        (let runResult = run code (nullish (stdin entry) [])
         in (success runResult \<or> stderr runResult = [])
            \<and> outputsMatch (stdout runResult) (nullish (expectedOutput entry) []))
      else True)"

text \<open>The calls of a log that analyse the submission's text.\<close>

fun is_analysis_call :: "call \<Rightarrow> bool" where
  "is_analysis_call (Call_tokenSimilarity a b) = True"
| "is_analysis_call (Call_checkStructure u r) = True"
| "is_analysis_call (Call_compareToReference u r) = False"
| "is_analysis_call (Call_runCCode c i) = False"
| "is_analysis_call (Call_outputsMatch a e) = False"

definition analysis_calls :: "call list \<Rightarrow> call list" where
  "analysis_calls cs = filter is_analysis_call cs"

section \<open>Sample collaborators\<close>

text \<open>A store that matches every problem text to one entry, and a runner that gives one
  result whatever it is asked to run.\<close>

definition entry_with :: "string \<Rightarrow> string option \<Rightarrow> ProblemEntry" where
  "entry_with sol expected = \<lparr> problem = ''p'', solution = sol, stdin = None, expectedOutput = expected \<rparr>"

definition find_const :: "ProblemEntry \<Rightarrow> string \<Rightarrow> ProblemEntry list \<Rightarrow> ProblemEntry option" where
  "find_const e text ps = Some e"

definition run_const :: "RunResult \<Rightarrow> string \<Rightarrow> string \<Rightarrow> RunResult" where
  "run_const r code input = r"

definition run_ok :: "string \<Rightarrow> RunResult" where
  "run_ok out = \<lparr> success = True, stdout = out, stderr = [], error = None \<rparr>"

section \<open>Normal forms of output text\<close>

text \<open>A line is trimmed when it is empty or neither starts nor ends with white space.\<close>

definition ends_clean :: "string \<Rightarrow> bool" where
  "ends_clean l = (if l = [] then True else \<not> is_space (hd l) \<and> \<not> is_space (last l))"

text \<open>A text is collapsed when it has no tab and no two spaces in a row.\<close>

fun tidy :: "string \<Rightarrow> bool" where
  "tidy [] = True"
| "tidy (c # cs) = (c \<noteq> TAB \<and> \<not> (c = SP \<and> cs \<noteq> [] \<and> hd cs = SP) \<and> tidy cs)"

text \<open>The text before the last trim: its lines are the trimmed lines of the collapsed text.\<close>

definition trimmed_lines :: "string \<Rightarrow> string list" where
  "trimmed_lines s = map trim (split_lines (collapse_runs is_blank (cr_to_lf (crlf_to_lf s))))"

section \<open>The similarity scorer\<close>

lemma foldl_set_add_set: "set (foldl set_add acc xs) = set acc \<union> set xs"
  by (induction xs arbitrary: acc) auto

lemma foldl_set_add_distinct: "distinct acc \<Longrightarrow> distinct (foldl set_add acc xs)"
  by (induction xs arbitrary: acc) auto

lemma new_Set_set: "set (new_Set xs) = set xs"
  by (simp add: new_Set_def foldl_set_add_set)

lemma new_Set_distinct: "distinct (new_Set xs)"
  by (simp add: new_Set_def foldl_set_add_distinct)

lemma new_Set_length: "length (new_Set xs) = card (set xs)"
  using distinct_card [OF new_Set_distinct, of xs] by (simp add: new_Set_set)

lemma foldl_count: "foldl (\<lambda>m t. if P t then m + 1 else m) n xs = n + length (filter P xs)"
  by (induction xs arbitrary: n) auto

lemma count_matches_card:
  assumes "distinct A"
  shows "count_matches A B = card (set A \<inter> set B)"
proof -
  have "count_matches A B = length (filter (\<lambda>t. t \<in> set B) A)"
    by (simp add: count_matches_def foldl_count)
  also have "\<dots> = card (set (filter (\<lambda>t. t \<in> set B) A))"
    by (rule distinct_card [symmetric]) (simp add: assms)
  also have "set (filter (\<lambda>t. t \<in> set B) A) = set A \<inter> set B"
    by auto
  finally show ?thesis .
qed

lemma tokenSimilarity_nonempty:
  assumes "a \<noteq> []" "b \<noteq> []"
  shows "tokenSimilarity a b = jaccard (lowered a) (lowered b)"
  using assms
  by (simp add: tokenSimilarity_def Let_def new_Set_length new_Set_set
      count_matches_card [OF new_Set_distinct] jaccard_def lowered_def)

lemma jaccard_range: "finite A \<Longrightarrow> finite B \<Longrightarrow> 0 \<le> jaccard A B \<and> jaccard A B \<le> 1"
proof -
  assume f: "finite A" "finite B"
  have "card (A \<inter> B) \<le> card (A \<union> B)"
    using f by (intro card_mono) auto
  then show ?thesis
    unfolding jaccard_def
    by (cases "card (A \<union> B) = 0") (simp_all add: divide_le_eq_1)
qed

lemma tokenSimilarity_range: "0 \<le> tokenSimilarity a b \<and> tokenSimilarity a b \<le> 1"
proof (cases "a = [] \<or> b = []")
  case True
  then show ?thesis by (auto simp: tokenSimilarity_def)
next
  case False
  then show ?thesis
    using jaccard_range [of "lowered a" "lowered b"]
    by (simp add: tokenSimilarity_nonempty lowered_def)
qed

lemma tokenSimilarity_self: "tokenSimilarity a a = 1"
proof (cases "a = []")
  case True
  then show ?thesis by (simp add: tokenSimilarity_def)
next
  case False
  then have "card (lowered a) \<noteq> 0" by (simp add: lowered_def)
  with False show ?thesis
    by (simp add: tokenSimilarity_nonempty jaccard_def)
qed

text \<open>
  C6. \<open>tokenSimilarity a b\<close> is the Jaccard similarity of the two sets of lowercased tokens
  (1 when both lists are empty), lies between 0 and 1, is 0 when exactly one list is empty,
  and is 1 on a non-empty list compared with itself.
\<close>

theorem tokenSimilarity_is_jaccard:
  "tokenSimilarity a b = (if a = [] \<and> b = [] then 1 else jaccard (lowered a) (lowered b))
   \<and> 0 \<le> tokenSimilarity a b \<and> tokenSimilarity a b \<le> 1
   \<and> tokenSimilarity [] [] = 1
   \<and> ((a = []) \<noteq> (b = []) \<longrightarrow> tokenSimilarity a b = 0)
   \<and> (a \<noteq> [] \<longrightarrow> tokenSimilarity a a = 1)"
proof -
  have one_empty: "tokenSimilarity a b = 0" "jaccard (lowered a) (lowered b) = 0"
    if "(a = []) \<noteq> (b = [])"
    using that by (auto simp: tokenSimilarity_def jaccard_def lowered_def)
  have "tokenSimilarity a b = (if a = [] \<and> b = [] then 1 else jaccard (lowered a) (lowered b))"
  proof (cases "a = []"; cases "b = []")
    show "a = [] \<Longrightarrow> b = [] \<Longrightarrow> ?thesis" by (simp add: tokenSimilarity_def)
    show "a = [] \<Longrightarrow> b \<noteq> [] \<Longrightarrow> ?thesis" using one_empty by simp
    show "a \<noteq> [] \<Longrightarrow> b = [] \<Longrightarrow> ?thesis" using one_empty by simp
    show "a \<noteq> [] \<Longrightarrow> b \<noteq> [] \<Longrightarrow> ?thesis" by (simp add: tokenSimilarity_nonempty)
  qed
  moreover have "tokenSimilarity [] [] = 1" by (simp add: tokenSimilarity_def)
  ultimately show ?thesis
    using tokenSimilarity_range [of a b] tokenSimilarity_self [of a] one_empty by blast
qed

theorem tokenSimilarity_is_jaccard_witness:
  "tokenSimilarity [''If'', ''x''] [''if'', ''y''] = 1 / 3
   \<and> tokenSimilarity [] [''if''] = 0
   \<and> tokenSimilarity [''If'', ''x''] [''If'', ''x''] = 1"
proof -
  have j: "jaccard (lowered [''If'', ''x'']) (lowered [''if'', ''y'']) = 1 / 3"
    by code_simp
  show ?thesis
    using tokenSimilarity_is_jaccard [of "[''If'', ''x'']" "[''if'', ''y'']"]
      tokenSimilarity_is_jaccard [of "[]" "[''if'']"]
      tokenSimilarity_is_jaccard [of "[''If'', ''x'']" "[''If'', ''x'']"] j
    by simp
qed

section \<open>The grading orchestrator\<close>

lemma Math_round_nonneg: "0 \<le> x \<Longrightarrow> 0 \<le> Math_round x"
  by (simp add: Math_round_def)

lemma compareToReference_empty:
  "normalizeCode u = [] \<Longrightarrow>
   compareToReference u r =
     (\<lparr> score = 0, mistakes = [''No code provided''],
        summary = ''Please write your C solution.'', matchedProblem = None,
        userOutput = None, expectedOutputR = None, outputMatched = None \<rparr>, [])"
  by (simp add: compareToReference_def)

lemma compareToReference_score:
  "normalizeCode u \<noteq> [] \<Longrightarrow>
   score (fst (compareToReference u r)) =
     min 100 (Math_round (tokenSimilarity (getTokens u) (getTokens r) * 60)
              + max 0 (40 - snd (checkStructure u r)))"
  by (simp add: compareToReference_def Let_def)

lemma compareToReference_calls:
  "snd (compareToReference u r) =
     (if normalizeCode u = [] then []
      else [Call_tokenSimilarity (getTokens u) (getTokens r), Call_checkStructure u r])"
  by (simp add: compareToReference_def Let_def)

lemma compareToReference_score_range:
  "0 \<le> score (fst (compareToReference u r)) \<and> score (fst (compareToReference u r)) \<le> 100"
proof (cases "normalizeCode u = []")
  case True
  then show ?thesis by (simp add: compareToReference_empty)
next
  case False
  have "0 \<le> Math_round (tokenSimilarity (getTokens u) (getTokens r) * 60)"
    using tokenSimilarity_range [of "getTokens u" "getTokens r"]
    by (intro Math_round_nonneg) simp
  then show ?thesis
    using False by (simp add: compareToReference_score)
qed


lemma compareToReference_fields:
  "matchedProblem (fst (compareToReference u r)) = None
   \<and> userOutput (fst (compareToReference u r)) = None
   \<and> expectedOutputR (fst (compareToReference u r)) = None
   \<and> outputMatched (fst (compareToReference u r)) = None"
  by (simp add: compareToReference_def Let_def)

lemma validateCCode_unmatched:
  "f p ps = None \<Longrightarrow>
   validateCCode f ps run p c =
     (\<lparr> score = 0,
        mistakes = [''No matching problem found in the database.'',
                    ''Paste the exact problem text from the list.''],
        summary = ''Could not find this problem. Use the exact problem description.'',
        matchedProblem = None,
        userOutput = None, expectedOutputR = None, outputMatched = None \<rparr>, [])"
  by (simp add: validateCCode_def)

lemma validateCCode_no_check:
  "f p ps = Some e \<Longrightarrow> \<not> hasOutputCheck e \<Longrightarrow>
   validateCCode f ps run p c =
     ((fst (compareToReference c (solution e)))\<lparr> matchedProblem := Some (problem e) \<rparr>,
      Call_compareToReference c (solution e) # snd (compareToReference c (solution e)))"
  by (simp add: validateCCode_def Let_def)

lemma validateCCode_failed:
  "f p ps = Some e \<Longrightarrow> hasOutputCheck e \<Longrightarrow>
   \<not> success (run c (nullish (stdin e) [])) \<Longrightarrow> stderr (run c (nullish (stdin e) [])) \<noteq> [] \<Longrightarrow>
   validateCCode f ps run p c =
     (\<lparr> score = 0,
        mistakes = [''Code failed to compile or run.'',
                    join_lines (take 3 (split_lines (stderr (run c (nullish (stdin e) [])))))],
        summary = ''Fix compilation/runtime errors first.'',
        matchedProblem = Some (problem e),
        userOutput = (if stdout (run c (nullish (stdin e) [])) \<noteq> []
                      then Some (stdout (run c (nullish (stdin e) []))) else None),
        expectedOutputR = expectedOutput e,
        outputMatched = Some False \<rparr>,
      [Call_runCCode c (nullish (stdin e) [])])"
  by (simp add: validateCCode_def Let_def)

lemma validateCCode_mismatch:
  "f p ps = Some e \<Longrightarrow> hasOutputCheck e \<Longrightarrow>
   success (run c (nullish (stdin e) [])) \<or> stderr (run c (nullish (stdin e) [])) = [] \<Longrightarrow>
   \<not> outputsMatch (stdout (run c (nullish (stdin e) []))) (nullish (expectedOutput e) []) \<Longrightarrow>
   score (fst (validateCCode f ps run p c)) = 0
   \<and> length (mistakes (fst (validateCCode f ps run p c))) = 3
   \<and> outputMatched (fst (validateCCode f ps run p c)) = Some False
   \<and> snd (validateCCode f ps run p c) =
       [Call_runCCode c (nullish (stdin e) []),
        Call_outputsMatch (stdout (run c (nullish (stdin e) []))) (nullish (expectedOutput e) [])]"
  by (auto simp add: validateCCode_def Let_def)

lemma validateCCode_matched:
  "f p ps = Some e \<Longrightarrow> hasOutputCheck e \<Longrightarrow>
   success (run c (nullish (stdin e) [])) \<or> stderr (run c (nullish (stdin e) [])) = [] \<Longrightarrow>
   outputsMatch (stdout (run c (nullish (stdin e) []))) (nullish (expectedOutput e) []) \<Longrightarrow>
   score (fst (validateCCode f ps run p c)) = score (fst (compareToReference c (solution e)))
   \<and> mistakes (fst (validateCCode f ps run p c)) = mistakes (fst (compareToReference c (solution e)))
   \<and> outputMatched (fst (validateCCode f ps run p c)) = Some True
   \<and> snd (validateCCode f ps run p c) =
       [Call_runCCode c (nullish (stdin e) []),
        Call_outputsMatch (stdout (run c (nullish (stdin e) []))) (nullish (expectedOutput e) []),
        Call_compareToReference c (solution e)] @ snd (compareToReference c (solution e))"
  by (auto simp add: validateCCode_def Let_def)

text \<open>The five paths of a grading call.\<close>

lemma validateCCode_cases:
  obtains
    (Unmatched) "f p ps = None"
  | (NoOutputCheck) e where "f p ps = Some e" "\<not> hasOutputCheck e"
  | (ExecutionFailed) e where "f p ps = Some e" "hasOutputCheck e"
      "\<not> success (run c (nullish (stdin e) []))" "stderr (run c (nullish (stdin e) [])) \<noteq> []"
  | (OutputMismatch) e where "f p ps = Some e" "hasOutputCheck e"
      "success (run c (nullish (stdin e) [])) \<or> stderr (run c (nullish (stdin e) [])) = []"
      "\<not> outputsMatch (stdout (run c (nullish (stdin e) []))) (nullish (expectedOutput e) [])"
  | (OutputMatched) e where "f p ps = Some e" "hasOutputCheck e"
      "success (run c (nullish (stdin e) [])) \<or> stderr (run c (nullish (stdin e) [])) = []"
      "outputsMatch (stdout (run c (nullish (stdin e) []))) (nullish (expectedOutput e) [])"
  by (cases "f p ps") blast+

text \<open>
  C2. Whatever the problem text, the submission and the collaborators' answers, the score of
  the result lies between 0 and 100.
\<close>

theorem score_in_range:
  "0 \<le> score (fst (validateCCode f ps run p c)) \<and> score (fst (validateCCode f ps run p c)) \<le> 100"
proof (cases rule: validateCCode_cases [where f=f and p=p and ps=ps and run=run and c=c])
  case Unmatched
  then show ?thesis by (simp add: validateCCode_unmatched)
next
  case (NoOutputCheck e)
  then show ?thesis
    using compareToReference_score_range [of c "solution e"]
    by (simp add: validateCCode_no_check)
next
  case (ExecutionFailed e)
  then show ?thesis by (simp add: validateCCode_failed)
next
  case (OutputMismatch e)
  then show ?thesis using validateCCode_mismatch [of f p ps e run c] by simp
next
  case (OutputMatched e)
  then show ?thesis
    using validateCCode_matched [of f p ps e run c] compareToReference_score_range [of c "solution e"]
    by simp
qed

text \<open>
  C1. A result whose \<open>outputMatched\<close> is false has score 0, and its grading call made no
  call of \<open>compareToReference\<close>, of the similarity scorer or of the structural checker.
\<close>

theorem mismatch_scores_zero:
  assumes "outputMatched (fst (validateCCode f ps run p c)) = Some False"
  shows "score (fst (validateCCode f ps run p c)) = 0
         \<and> scoring_calls (snd (validateCCode f ps run p c)) = []"
proof (cases rule: validateCCode_cases [where f=f and p=p and ps=ps and run=run and c=c])
  case Unmatched
  then show ?thesis by (simp add: validateCCode_unmatched scoring_calls_def)
next
  case (NoOutputCheck e)
  then show ?thesis
    using assms compareToReference_fields [of c "solution e"]
    by (simp add: validateCCode_no_check)
next
  case (ExecutionFailed e)
  then show ?thesis by (simp add: validateCCode_failed scoring_calls_def)
next
  case (OutputMismatch e)
  then show ?thesis using validateCCode_mismatch [of f p ps e run c] by (simp add: scoring_calls_def)
next
  case (OutputMatched e)
  then show ?thesis
    using assms validateCCode_matched [of f p ps e run c] by simp
qed

theorem mismatch_scores_zero_witness:
  "outputMatched (fst (validateCCode (find_const (entry_with ''int main(){}'' (Some ''7''))) []
      (run_const (run_ok ''8'')) ''p'' ''int main(){}'')) = Some False
   \<and> score (fst (validateCCode (find_const (entry_with ''int main(){}'' (Some ''7''))) []
      (run_const (run_ok ''8'')) ''p'' ''int main(){}'')) = 0
   \<and> scoring_calls (snd (validateCCode (find_const (entry_with ''int main(){}'' (Some ''7''))) []
      (run_const (run_ok ''8'')) ''p'' ''int main(){}'')) = []"
proof -
  have h: "outputMatched (fst (validateCCode (find_const (entry_with ''int main(){}'' (Some ''7''))) []
      (run_const (run_ok ''8'')) ''p'' ''int main(){}'')) = Some False"
    by code_simp
  from mismatch_scores_zero [OF h] h show ?thesis by simp
qed




text \<open>
  C10. A matched entry whose expected output is the empty string has no output check: the
  result is that of \<open>compareToReference\<close> with the matched problem set, nothing is run and
  no output compared, and the result has no \<open>userOutput\<close>, \<open>expectedOutput\<close> or
  \<open>outputMatched\<close>.
\<close>

theorem empty_expected_output_skips_run:
  assumes "f p ps = Some e" and "expectedOutput e = Some []"
  shows "validateCCode f ps run p c =
           ((fst (compareToReference c (solution e)))\<lparr> matchedProblem := Some (problem e) \<rparr>,
            Call_compareToReference c (solution e) # snd (compareToReference c (solution e)))
         \<and> output_calls (snd (validateCCode f ps run p c)) = []
         \<and> userOutput (fst (validateCCode f ps run p c)) = None
         \<and> expectedOutputR (fst (validateCCode f ps run p c)) = None
         \<and> outputMatched (fst (validateCCode f ps run p c)) = None"
proof -
  have "\<not> hasOutputCheck e" using assms(2) by (simp add: hasOutputCheck_def)
  then show ?thesis
    using assms(1) compareToReference_fields [of c "solution e"]
    by (simp add: validateCCode_no_check output_calls_def compareToReference_calls)
qed

theorem empty_expected_output_skips_run_witness:
  "find_const (entry_with ''int main(){}'' (Some [])) ''p'' [] = Some (entry_with ''int main(){}'' (Some []))
   \<and> expectedOutput (entry_with ''int main(){}'' (Some [])) = Some []
   \<and> output_calls (snd (validateCCode (find_const (entry_with ''int main(){}'' (Some []))) []
            (run_const (run_ok ''8'')) ''p'' ''int x;'')) = []
   \<and> outputMatched (fst (validateCCode (find_const (entry_with ''int main(){}'' (Some []))) []
            (run_const (run_ok ''8'')) ''p'' ''int x;'')) = None"
proof -
  have h1: "find_const (entry_with ''int main(){}'' (Some [])) ''p'' []
            = Some (entry_with ''int main(){}'' (Some []))"
    by (simp add: find_const_def)
  have h2: "expectedOutput (entry_with ''int main(){}'' (Some [])) = Some []"
    by (simp add: entry_with_def)
  from empty_expected_output_skips_run
         [where f = "find_const (entry_with ''int main(){}'' (Some []))" and p = "''p''" and ps = "[]"
            and e = "entry_with ''int main(){}'' (Some [])"
            and run = "run_const (run_ok ''8'')" and c = "''int x;''", OF h1 h2] h1 h2
  show ?thesis by blast
qed

text \<open>
  C3 (amended). On the two scoring paths, when the submission is not empty after
  normalization the score is \<open>round(tokenSimilarity * 60) + max(0, 40 - penalty)\<close>, at most
  100, over the tokens of submission and reference and the penalty of the structural
  checker; when it is empty the score is 0.
\<close>

theorem scoring_path_score:
  assumes "f p ps = Some e" and "scoring_path run e c"
  shows "score (fst (validateCCode f ps run p c)) =
           (if normalizeCode c = [] then 0
            else min 100 (Math_round (tokenSimilarity (getTokens c) (getTokens (solution e)) * 60)
                          + max 0 (40 - snd (checkStructure c (solution e)))))"
proof -
  have "score (fst (validateCCode f ps run p c)) = score (fst (compareToReference c (solution e)))"
  proof (cases "hasOutputCheck e")
    case True
    then show ?thesis
      using assms validateCCode_matched [of f p ps e run c]
      by (simp add: scoring_path_def Let_def)
  next
    case False
    then show ?thesis using assms(1) by (simp add: validateCCode_no_check)
  qed
  then show ?thesis
    by (simp add: compareToReference_score compareToReference_empty)
qed

theorem scoring_path_score_witness:
  "find_const (entry_with ''int main(){ return 0; }'' (Some ''7'')) ''p'' []
     = Some (entry_with ''int main(){ return 0; }'' (Some ''7''))
   \<and> scoring_path (run_const (run_ok (''7'' @ [CR, LF]))) (entry_with ''int main(){ return 0; }'' (Some ''7'')) ''int main(){}''
   \<and> score (fst (validateCCode (find_const (entry_with ''int main(){ return 0; }'' (Some ''7''))) []
        (run_const (run_ok (''7'' @ [CR, LF]))) ''p'' ''int main(){}'')) = 80"
proof -
  have h1: "find_const (entry_with ''int main(){ return 0; }'' (Some ''7'')) ''p'' []
     = Some (entry_with ''int main(){ return 0; }'' (Some ''7''))"
    by (simp add: find_const_def)
  have h2: "scoring_path (run_const (run_ok (''7'' @ [CR, LF])))
      (entry_with ''int main(){ return 0; }'' (Some ''7'')) ''int main(){}''"
    by code_simp
  have v: "(if normalizeCode ''int main(){}'' = [] then 0
            else min 100 (Math_round (tokenSimilarity (getTokens ''int main(){}'')
                   (getTokens (solution (entry_with ''int main(){ return 0; }'' (Some ''7'')))) * 60)
                + max 0 (40 - snd (checkStructure ''int main(){}''
                   (solution (entry_with ''int main(){ return 0; }'' (Some ''7''))))))) = 80"
    by code_simp
  from scoring_path_score
         [where f = "find_const (entry_with ''int main(){ return 0; }'' (Some ''7''))"
            and p = "''p''" and ps = "[]"
            and e = "entry_with ''int main(){ return 0; }'' (Some ''7'')"
            and run = "run_const (run_ok (''7'' @ [CR, LF]))" and c = "''int main(){}''", OF h1 h2]
    h1 h2 v
  show ?thesis by simp
qed

text \<open>An empty submission on the path without output check scores 0, where the formula
  gives 15.\<close>

theorem scoring_formula_counterexample:
  "find_const (entry_with ''int main(){}'' None) ''p'' [] = Some (entry_with ''int main(){}'' None)
   \<and> scoring_path (run_const (run_ok [])) (entry_with ''int main(){}'' None) []
   \<and> score (fst (validateCCode (find_const (entry_with ''int main(){}'' None)) []
        (run_const (run_ok [])) ''p'' [])) = 0
   \<and> min 100 (Math_round (tokenSimilarity (getTokens []) (getTokens ''int main(){}'') * 60)
              + max 0 (40 - snd (checkStructure [] ''int main(){}''))) = 15"
  by code_simp

text \<open>\<open>runCCode\<close> turns a throw of its \<open>fetch\<close>, or of the parsing of the body, into a
  failed run without diagnostic text.\<close>

lemma runCCode_catches:
  assumes "fetch code i = FetchThrows t \<or> fetch code i = JsonThrows t"
  shows "runCCode fetch code i = caught t"
    and "\<not> success (runCCode fetch code i)" and "stderr (runCCode fetch code i) = []"
  using assms by (auto simp: runCCode_def caught_def)

text \<open>
  C4 (amended). When the matched problem has an expected output and the runner reports
  failure with a non-empty \<open>stderr\<close>, the result has score 0, its issues are the failure
  notice and the first three lines of \<open>stderr\<close>, and no similarity or structural scoring is
  performed. The grading call returns this result; with \<open>runCCode\<close> as the runner that holds
  whatever its \<open>fetch\<close> does, a throw included.
\<close>

theorem execution_failure_with_diagnostic:
  assumes "f p ps = Some e" and "hasOutputCheck e"
    and "\<not> success (run c (nullish (stdin e) []))"
    and "stderr (run c (nullish (stdin e) [])) \<noteq> []"
  shows "score (fst (validateCCode f ps run p c)) = 0
         \<and> mistakes (fst (validateCCode f ps run p c)) =
             [''Code failed to compile or run.'',
              join_lines (take 3 (split_lines (stderr (run c (nullish (stdin e) [])))))]
         \<and> scoring_calls (snd (validateCCode f ps run p c)) = []"
  using assms by (simp add: validateCCode_failed scoring_calls_def)

theorem execution_failure_with_diagnostic_witness:
  "find_const (entry_with ''int main(){}'' (Some ''7'')) ''p'' [] = Some (entry_with ''int main(){}'' (Some ''7''))
   \<and> hasOutputCheck (entry_with ''int main(){}'' (Some ''7''))
   \<and> \<not> success (runCCode (\<lambda>code input. JsonData None
          (Some \<lparr> run_stdout = None, run_stderr = Some (''a'' @ [LF] @ ''b'' @ [LF] @ ''c'' @ [LF] @ ''d''),
                  run_code = Some 1 \<rparr>)) ''int main(){'' (nullish (stdin (entry_with ''int main(){}'' (Some ''7''))) []))
   \<and> stderr (runCCode (\<lambda>code input. JsonData None
          (Some \<lparr> run_stdout = None, run_stderr = Some (''a'' @ [LF] @ ''b'' @ [LF] @ ''c'' @ [LF] @ ''d''),
                  run_code = Some 1 \<rparr>)) ''int main(){'' (nullish (stdin (entry_with ''int main(){}'' (Some ''7''))) [])) \<noteq> []
   \<and> mistakes (fst (validateCCode (find_const (entry_with ''int main(){}'' (Some ''7''))) []
        (runCCode (\<lambda>code input. JsonData None
          (Some \<lparr> run_stdout = None, run_stderr = Some (''a'' @ [LF] @ ''b'' @ [LF] @ ''c'' @ [LF] @ ''d''),
                  run_code = Some 1 \<rparr>))) ''p'' ''int main(){''))
      = [''Code failed to compile or run.'', ''a'' @ [LF] @ ''b'' @ [LF] @ ''c'']"
proof -
  let ?e = "entry_with ''int main(){}'' (Some ''7'')"
  let ?run = "runCCode (\<lambda>code input. JsonData None
          (Some \<lparr> run_stdout = None, run_stderr = Some (''a'' @ [LF] @ ''b'' @ [LF] @ ''c'' @ [LF] @ ''d''),
                  run_code = Some 1 \<rparr>))"
  have h1: "find_const ?e ''p'' [] = Some ?e"
    by (simp add: find_const_def)
  have h2: "hasOutputCheck ?e" by code_simp
  have h3: "\<not> success (?run ''int main(){'' (nullish (stdin ?e) []))" by code_simp
  have h4: "stderr (?run ''int main(){'' (nullish (stdin ?e) [])) \<noteq> []" by code_simp
  have v: "join_lines (take 3 (split_lines (stderr (?run ''int main(){'' (nullish (stdin ?e) [])))))
           = ''a'' @ [LF] @ ''b'' @ [LF] @ ''c''"
    by code_simp
  from execution_failure_with_diagnostic
         [where f = "find_const ?e" and p = "''p''" and ps = "[]" and e = ?e and run = ?run
            and c = "''int main(){''", OF h1 h2 h3 h4] h1 h2 h3 h4 v
  show ?thesis by simp
qed

text \<open>A failure without diagnostic text (here \<open>runCCode\<close> on an HTTP status that is not ok)
  goes on to the output comparison; against an expected output of one line feed the outputs
  match and the submission is scored.\<close>

theorem execution_failure_counterexample:
  "find_const (entry_with ''int main(){}'' (Some [LF])) ''p'' [] = Some (entry_with ''int main(){}'' (Some [LF]))
   \<and> hasOutputCheck (entry_with ''int main(){}'' (Some [LF]))
   \<and> \<not> success (runCCode (\<lambda>code input. NotOk 500) ''int main(){}''
          (nullish (stdin (entry_with ''int main(){}'' (Some [LF]))) []))
   \<and> score (fst (validateCCode (find_const (entry_with ''int main(){}'' (Some [LF]))) []
        (runCCode (\<lambda>code input. NotOk 500)) ''p'' ''int main(){}'')) = 100
   \<and> scoring_calls (snd (validateCCode (find_const (entry_with ''int main(){}'' (Some [LF]))) []
        (runCCode (\<lambda>code input. NotOk 500)) ''p'' ''int main(){}'')) \<noteq> []"
  by code_simp

text \<open>
  C5 (amended). A submission that is empty after comment removal and white-space
  normalization gets score 0, and neither the similarity scorer nor the structural checker
  is called on it. When the matched problem has an output check, the submission is still run
  first and, unless the run fails with diagnostic text, its output compared next; only after
  a match does \<open>compareToReference\<close> meet the empty text. The calls of the grading call are
  exactly these, in this order.
\<close>

theorem empty_submission_scores_zero:
  assumes "normalizeCode c = []"
  shows "score (fst (validateCCode f ps run p c)) = 0
         \<and> analysis_calls (snd (validateCCode f ps run p c)) = []
         \<and> snd (validateCCode f ps run p c) =
             (case f p ps of
                None \<Rightarrow> []
              | Some e \<Rightarrow>
                  if hasOutputCheck e then
                    (if \<not> success (run c (nullish (stdin e) []))
                        \<and> stderr (run c (nullish (stdin e) [])) \<noteq> []
                     then [Call_runCCode c (nullish (stdin e) [])]
                     else if outputsMatch (stdout (run c (nullish (stdin e) [])))
                               (nullish (expectedOutput e) [])
                     then [Call_runCCode c (nullish (stdin e) []),
                           Call_outputsMatch (stdout (run c (nullish (stdin e) [])))
                             (nullish (expectedOutput e) []),
                           Call_compareToReference c (solution e)]
                     else [Call_runCCode c (nullish (stdin e) []),
                           Call_outputsMatch (stdout (run c (nullish (stdin e) [])))
                             (nullish (expectedOutput e) [])])
                  else [Call_compareToReference c (solution e)])"
proof (cases rule: validateCCode_cases [where f=f and p=p and ps=ps and run=run and c=c])
  case Unmatched
  then show ?thesis by (simp add: validateCCode_unmatched analysis_calls_def)
next
  case (NoOutputCheck e)
  then show ?thesis
    using assms by (simp add: validateCCode_no_check compareToReference_empty analysis_calls_def)
next
  case (ExecutionFailed e)
  then show ?thesis by (simp add: validateCCode_failed analysis_calls_def)
next
  case (OutputMismatch e)
  then show ?thesis
    using validateCCode_mismatch [of f p ps e run c] by (auto simp: analysis_calls_def)
next
  case (OutputMatched e)
  then show ?thesis
    using assms validateCCode_matched [of f p ps e run c]
    by (auto simp: compareToReference_empty analysis_calls_def)
qed

theorem empty_submission_scores_zero_witness:
  "normalizeCode ''  /* nothing */ // yet'' = []
   \<and> score (fst (validateCCode (find_const (entry_with ''int main(){}'' (Some ''7''))) []
        (run_const (run_ok ''7'')) ''p'' ''  /* nothing */ // yet'')) = 0
   \<and> analysis_calls (snd (validateCCode (find_const (entry_with ''int main(){}'' (Some ''7''))) []
        (run_const (run_ok ''7'')) ''p'' ''  /* nothing */ // yet'')) = []
   \<and> snd (validateCCode (find_const (entry_with ''int main(){}'' (Some ''7''))) []
        (run_const (run_ok ''7'')) ''p'' ''  /* nothing */ // yet'')
      = [Call_runCCode ''  /* nothing */ // yet'' [],
         Call_outputsMatch ''7'' ''7'',
         Call_compareToReference ''  /* nothing */ // yet'' ''int main(){}'']"
proof -
  let ?e = "entry_with ''int main(){}'' (Some ''7'')"
  let ?run = "run_const (run_ok ''7'')"
  let ?c = "''  /* nothing */ // yet''"
  have h: "normalizeCode ?c = []" by code_simp
  have v: "(case find_const ?e ''p'' [] of
                None \<Rightarrow> []
              | Some e \<Rightarrow>
                  if hasOutputCheck e then
                    (if \<not> success (?run ?c (nullish (stdin e) []))
                        \<and> stderr (?run ?c (nullish (stdin e) [])) \<noteq> []
                     then [Call_runCCode ?c (nullish (stdin e) [])]
                     else if outputsMatch (stdout (?run ?c (nullish (stdin e) [])))
                               (nullish (expectedOutput e) [])
                     then [Call_runCCode ?c (nullish (stdin e) []),
                           Call_outputsMatch (stdout (?run ?c (nullish (stdin e) [])))
                             (nullish (expectedOutput e) []),
                           Call_compareToReference ?c (solution e)]
                     else [Call_runCCode ?c (nullish (stdin e) []),
                           Call_outputsMatch (stdout (?run ?c (nullish (stdin e) [])))
                             (nullish (expectedOutput e) [])])
                  else [Call_compareToReference ?c (solution e)])
        = [Call_runCCode ?c [], Call_outputsMatch ''7'' ''7'',
           Call_compareToReference ?c ''int main(){}'']"
    by code_simp
  note t = empty_submission_scores_zero
         [where c = ?c and f = "find_const ?e" and ps = "[]" and run = ?run and p = "''p''", OF h]
  from t [unfolded v] h show ?thesis by blast
qed

text \<open>The empty submission against an entry with expected output: it is run and its output
  compared before the empty check of \<open>compareToReference\<close>.\<close>

theorem empty_submission_counterexample:
  "normalizeCode [] = []
   \<and> snd (validateCCode (find_const (entry_with ''int main(){}'' (Some ''7''))) []
        (run_const (run_ok ''7'')) ''p'' [])
     = [Call_runCCode [] [], Call_outputsMatch ''7'' ''7'',
        Call_compareToReference [] ''int main(){}'']"
  by code_simp

lemma Math_round_60: "Math_round 60 = 60"
  by (simp add: Math_round_def floor_eq_iff)

lemma mod2_needs_percent: "regex_test mod2_at s \<Longrightarrow> regex_test (\<lambda>s. lit ''%'' s \<noteq> None) s"
  by (induction s) (auto simp: mod2_at_def split: option.splits)

lemma checkStructure_same:
  "snd (checkStructure c c) =
     (if regex_test_b (call_at ''main'') c then 0 else 25)
     + (if regex_test_b io_call_at c \<and> \<not> regex_test include_at c then 15 else 0)
     + (if count_char (CHR ''{'') c \<noteq> count_char (CHR ''}'') c then 20 else 0)
     + (if regex_test_b (call_at ''fgets'') c \<and> regex_test_b (call_at ''gets'') c then 10 else 0)"
  using mod2_needs_percent [of c]
  by (auto simp: checkStructure_def rule_def Let_def)

text \<open>
  C7 (amended). For a submission identical to the reference solution the similarity of the
  token lists is 1; the structural penalty is 25 for a missing \<open>main(\<close>, plus 15 for an I/O
  call without the \<open>stdio.h\<close> include, plus 20 for unbalanced braces, plus 10 for a \<open>gets(\<close>
  call beside an \<open>fgets(\<close> call; when that penalty is 0 and the text is not empty after
  normalization, the score on a scoring path is 100.
\<close>

theorem identical_submission:
  assumes "f p ps = Some e" and "solution e = c" and "scoring_path run e c"
  shows "tokenSimilarity (getTokens c) (getTokens (solution e)) = 1
     \<and> snd (checkStructure c (solution e)) =
         (if regex_test_b (call_at ''main'') c then 0 else 25)
         + (if regex_test_b io_call_at c \<and> \<not> regex_test include_at c then 15 else 0)
         + (if count_char (CHR ''{'') c \<noteq> count_char (CHR ''}'') c then 20 else 0)
         + (if regex_test_b (call_at ''fgets'') c \<and> regex_test_b (call_at ''gets'') c then 10 else 0)
     \<and> (normalizeCode c \<noteq> [] \<and> snd (checkStructure c (solution e)) = 0 \<longrightarrow>
          score (fst (validateCCode f ps run p c)) = 100)"
proof -
  have sim: "tokenSimilarity (getTokens c) (getTokens (solution e)) = 1"
    using assms(2) by (simp add: tokenSimilarity_self)
  have pen: "snd (checkStructure c (solution e)) =
         (if regex_test_b (call_at ''main'') c then 0 else 25)
         + (if regex_test_b io_call_at c \<and> \<not> regex_test include_at c then 15 else 0)
         + (if count_char (CHR ''{'') c \<noteq> count_char (CHR ''}'') c then 20 else 0)
         + (if regex_test_b (call_at ''fgets'') c \<and> regex_test_b (call_at ''gets'') c then 10 else 0)"
    using assms(2) checkStructure_same [of c] by simp
  have "score (fst (validateCCode f ps run p c)) = 100"
    if "normalizeCode c \<noteq> []" "snd (checkStructure c (solution e)) = 0"
  proof -
    have "score (fst (validateCCode f ps run p c)) = score (fst (compareToReference c (solution e)))"
    proof (cases "hasOutputCheck e")
      case True
      then show ?thesis
        using assms validateCCode_matched [of f p ps e run c]
        by (simp add: scoring_path_def Let_def)
    next
      case False
      then show ?thesis using assms(1) by (simp add: validateCCode_no_check)
    qed
    then show ?thesis
      using that sim by (simp add: compareToReference_score Math_round_60)
  qed
  with sim pen show ?thesis by blast
qed

theorem identical_submission_witness:
  "find_const (entry_with ''int main(){}'' None) ''p'' [] = Some (entry_with ''int main(){}'' None)
   \<and> solution (entry_with ''int main(){}'' None) = ''int main(){}''
   \<and> scoring_path (run_const (run_ok [])) (entry_with ''int main(){}'' None) ''int main(){}''
   \<and> normalizeCode ''int main(){}'' \<noteq> []
   \<and> snd (checkStructure ''int main(){}'' (solution (entry_with ''int main(){}'' None))) = 0
   \<and> score (fst (validateCCode (find_const (entry_with ''int main(){}'' None)) []
        (run_const (run_ok [])) ''p'' ''int main(){}'')) = 100"
proof -
  let ?e = "entry_with ''int main(){}'' None"
  have h1: "find_const ?e ''p'' [] = Some ?e" by (simp add: find_const_def)
  have h2: "solution ?e = ''int main(){}''" by (simp add: entry_with_def)
  have h3: "scoring_path (run_const (run_ok [])) ?e ''int main(){}''" by code_simp
  have h4: "normalizeCode ''int main(){}'' \<noteq> []" by code_simp
  have h5: "snd (checkStructure ''int main(){}'' (solution ?e)) = 0" by code_simp
  from identical_submission
         [where f = "find_const ?e" and p = "''p''" and ps = "[]" and e = ?e
            and run = "run_const (run_ok [])" and c = "''int main(){}''", OF h1 h2 h3]
    h1 h2 h3 h4 h5
  show ?thesis by blast
qed

text \<open>The text \<open>int x;\<close> as submission and reference: no \<open>main(\<close>, penalty 25, score 75.\<close>

theorem identical_submission_counterexample:
  "solution (entry_with ''int x;'' None) = ''int x;''
   \<and> scoring_path (run_const (run_ok [])) (entry_with ''int x;'' None) ''int x;''
   \<and> snd (checkStructure ''int x;'' (solution (entry_with ''int x;'' None))) = 25
   \<and> score (fst (validateCCode (find_const (entry_with ''int x;'' None)) []
        (run_const (run_ok [])) ''p'' ''int x;'')) = 75"
  by code_simp

section \<open>The output comparator: lines\<close>

lemma split_lines_nonempty: "split_lines x \<noteq> []"
  by (induction x) (auto split: list.splits)

lemma join_lines_Cons: "ls \<noteq> [] \<Longrightarrow> join_lines (l # ls) = l @ LF # join_lines ls"
  by (cases ls) auto

lemma join_lines_char_Cons: "join_lines ((c # l) # ls) = c # join_lines (l # ls)"
  by (cases ls) auto

lemma join_split_lines: "join_lines (split_lines x) = x"
proof (induction x)
  case Nil
  then show ?case by simp
next
  case (Cons c cs)
  then show ?case
    using split_lines_nonempty [of cs]
    by (auto simp: join_lines_Cons join_lines_char_Cons split: list.splits)
qed

lemma split_lines_no_LF: "l \<in> set (split_lines x) \<Longrightarrow> LF \<notin> set l"
  by (induction x arbitrary: l) (auto split: list.splits if_splits)

lemma split_lines_single: "LF \<notin> set l \<Longrightarrow> split_lines l = [l]"
  by (induction l) auto

lemma split_lines_append_LF: "LF \<notin> set l \<Longrightarrow> split_lines (l @ LF # x) = l # split_lines x"
  by (induction l) auto

lemma split_join_lines:
  "ls \<noteq> [] \<Longrightarrow> \<forall>l \<in> set ls. LF \<notin> set l \<Longrightarrow> split_lines (join_lines ls) = ls"
proof (induction ls rule: join_lines.induct)
  case 1
  then show ?case by simp
next
  case (2 l)
  then show ?case by (simp add: split_lines_single)
next
  case (3 l v va)
  then show ?case by (simp add: split_lines_append_LF)
qed

lemma join_lines_snoc: "ls \<noteq> [] \<Longrightarrow> join_lines (ls @ [l]) = join_lines ls @ LF # l"
  by (induction ls rule: join_lines.induct) auto

lemma rev_join_lines: "rev (join_lines ls) = join_lines (rev (map rev ls))"
proof (induction ls rule: join_lines.induct)
  case 1
  then show ?case by simp
next
  case (2 l)
  then show ?case by simp
next
  case (3 l v va)
  have "join_lines ((rev (map rev va) @ [rev v]) @ [rev l])
        = join_lines (rev (map rev va) @ [rev v]) @ LF # rev l"
    by (rule join_lines_snoc) simp
  with 3 show ?case by simp
qed

lemma split_lines_rev: "split_lines (rev x) = rev (map rev (split_lines x))"
proof -
  have "split_lines (rev x) = split_lines (rev (join_lines (split_lines x)))"
    by (simp add: join_split_lines)
  also have "\<dots> = split_lines (join_lines (rev (map rev (split_lines x))))"
    by (simp add: rev_join_lines)
  also have "\<dots> = rev (map rev (split_lines x))"
    by (rule split_join_lines) (auto simp: split_lines_nonempty dest: split_lines_no_LF)
  finally show ?thesis .
qed

lemma split_lines_head_prefix: "split_lines x = l # ls \<Longrightarrow> \<exists>b. x = l @ b"
  by (induction x arbitrary: l ls) (auto split: list.splits if_splits)

lemma set_split_lines: "\<forall>l \<in> set (split_lines x). set l \<subseteq> set x"
  by (induction x) (auto split: list.splits if_splits)

lemma set_join_lines: "set (join_lines ls) \<subseteq> insert LF (\<Union>(set ` set ls))"
  by (induction ls rule: join_lines.induct) auto

section \<open>The output comparator: trimmed lines\<close>

lemma ends_clean_trim_id: "ends_clean l \<Longrightarrow> trim l = l"
proof (cases "l = []")
  case True
  then show ?thesis by (simp add: trim_def)
next
  case False
  assume "ends_clean l"
  with False have h: "\<not> is_space (hd l)" and t: "\<not> is_space (last l)"
    by (simp_all add: ends_clean_def)
  from False h have "dropWhile is_space l = l"
    by (cases l) auto
  moreover from False t have "dropWhile is_space (rev l) = rev l"
    by (cases "rev l") (auto simp: last_rev [symmetric] hd_rev)
  ultimately show ?thesis by (simp add: trim_def)
qed

lemma ends_clean_trim: "ends_clean (trim x)"
proof (cases "trim x = []")
  case True
  then show ?thesis by (simp add: ends_clean_def)
next
  case False
  define y where "y = dropWhile is_space x"
  define z where "z = dropWhile is_space (rev y)"
  have tz: "trim x = rev z" by (simp add: trim_def y_def z_def)
  with False have znil: "z \<noteq> []" by simp
  then have ynil: "y \<noteq> []" by (auto simp: z_def)
  have "\<not> is_space (hd z)"
    using znil unfolding z_def by (rule hd_dropWhile)
  then have l: "\<not> is_space (last (trim x))"
    using znil by (simp add: tz last_rev)
  have "\<exists>a. rev y = a @ z"
    unfolding z_def by (metis takeWhile_dropWhile_id)
  then obtain a where a: "rev y = a @ z" by blast
  then have "last (rev y) = last z" using znil by simp
  then have "hd y = last z" using ynil by (simp add: last_rev)
  moreover have "\<not> is_space (hd y)"
    using ynil unfolding y_def by (rule hd_dropWhile)
  ultimately have h: "\<not> is_space (hd (trim x))"
    using znil by (simp add: tz hd_rev)
  from h l False show ?thesis by (simp add: ends_clean_def)
qed

lemma trim_idem: "trim (trim x) = trim x"
  by (rule ends_clean_trim_id) (rule ends_clean_trim)

lemma ends_clean_rev: "ends_clean (rev l) = ends_clean l"
  by (auto simp: ends_clean_def hd_rev last_rev)

lemma trim_infix: "\<exists>a b. x = a @ trim x @ b"
proof -
  define y where "y = dropWhile is_space x"
  have 1: "x = takeWhile is_space x @ y" by (simp add: y_def)
  have "rev (takeWhile is_space (rev y) @ dropWhile is_space (rev y)) = rev (rev y)"
    by (simp only: takeWhile_dropWhile_id)
  then have "rev (dropWhile is_space (rev y)) @ rev (takeWhile is_space (rev y)) = y"
    by (simp only: rev_append rev_rev_ident)
  then have 2: "y = trim x @ rev (takeWhile is_space (rev y))"
    by (simp only: trim_def y_def)
  from 1 2 show ?thesis by metis
qed

lemma set_trim: "set (trim x) \<subseteq> set x"
proof -
  obtain a b where "x = a @ trim x @ b" using trim_infix by blast
  then have "set x = set a \<union> set (trim x) \<union> set b" by (metis set_append Un_assoc)
  then show ?thesis by blast
qed

text \<open>Stripping white space from the front of a text whose lines are trimmed leaves lines
  that are trimmed.\<close>

lemma lines_dropWhile:
  "\<forall>l \<in> set (split_lines x). ends_clean l \<Longrightarrow>
   \<forall>l \<in> set (split_lines (dropWhile is_space x)). ends_clean l"
proof (induction x)
  case Nil
  then show ?case by simp
next
  case (Cons c cs)
  show ?case
  proof (cases "is_space c")
    case False
    with Cons.prems show ?thesis by simp
  next
    case True
    have "c = LF"
    proof (rule ccontr)
      assume "c \<noteq> LF"
      then obtain l ls where "split_lines (c # cs) = (c # l) # ls"
        using split_lines_nonempty [of cs] by (cases "split_lines cs") auto
      with Cons.prems have "ends_clean (c # l)" by simp
      with True show False by (simp add: ends_clean_def)
    qed
    with Cons.prems have "\<forall>l \<in> set (split_lines cs). ends_clean l" by simp
    with Cons.IH True show ?thesis by simp
  qed
qed

lemma lines_rev:
  "\<forall>l \<in> set (split_lines x). ends_clean l \<Longrightarrow> \<forall>l \<in> set (split_lines (rev x)). ends_clean l"
  by (auto simp: split_lines_rev ends_clean_rev)

lemma lines_trim:
  assumes "\<forall>l \<in> set (split_lines x). ends_clean l"
  shows "\<forall>l \<in> set (split_lines (trim x)). ends_clean l"
  unfolding trim_def
  by (intro lines_rev lines_dropWhile assms)

section \<open>The output comparator: collapsed text\<close>

lemma tidy_suffix: "tidy (a @ b) \<Longrightarrow> tidy b"
  by (induction a) auto

lemma tidy_prefix: "tidy (a @ b) \<Longrightarrow> tidy a"
  by (induction a) (auto simp: hd_append)

lemma tidy_infix: "tidy (a @ x @ b) \<Longrightarrow> tidy x"
  using tidy_prefix tidy_suffix by blast

lemma tidy_join: "tidy a \<Longrightarrow> tidy b \<Longrightarrow> tidy (a @ LF # b)"
  by (induction a) (auto simp: hd_append LF_def SP_def TAB_def)

lemma collapse_tidy_id: "tidy x \<Longrightarrow> collapse_runs is_blank x = x"
proof (induction x)
  case Nil
  then show ?case by simp
next
  case (Cons c cs)
  then show ?case
    by (cases cs) (auto simp: is_blank_def)
qed

lemma collapse_head:
  "x \<noteq> [] \<Longrightarrow> \<not> is_blank (hd x) \<Longrightarrow> hd (collapse_runs is_blank x) = hd x \<and> collapse_runs is_blank x \<noteq> []"
  by (cases x) auto

lemma tidy_collapse: "tidy (collapse_runs is_blank x)"
proof (induction is_blank x rule: collapse_runs.induct)
  case 1
  then show ?case by simp
next
  case (2 c cs)
  show ?case
  proof (cases "is_blank c")
    case True
    let ?r = "dropWhile is_blank cs"
    have "collapse_runs is_blank ?r = [] \<or> hd (collapse_runs is_blank ?r) \<noteq> SP"
    proof (cases "?r = []")
      case True
      then have "collapse_runs is_blank ?r = []" by (simp only: collapse_runs.simps(1))
      then show ?thesis by blast
    next
      case False
      then have "\<not> is_blank (hd ?r)" by (rule hd_dropWhile)
      with False show ?thesis
        using collapse_head [of ?r] by (auto simp: is_blank_def)
    qed
    with True 2 show ?thesis by (auto simp: SP_def TAB_def)
  next
    case False
    with 2 show ?thesis
      by (auto simp: is_blank_def)
  qed
qed

section \<open>The output comparator: idempotence\<close>

lemma tidy_lines: "tidy x \<Longrightarrow> \<forall>l \<in> set (split_lines x). tidy l"
proof (induction x)
  case Nil
  then show ?case by simp
next
  case (Cons c cs)
  then have tcs: "tidy cs" and IH: "\<forall>l \<in> set (split_lines cs). tidy l" by simp_all
  show ?case
  proof (cases "c = LF")
    case True
    with IH show ?thesis by simp
  next
    case False
    obtain l ls where ls: "split_lines cs = l # ls"
      using split_lines_nonempty [of cs] by (cases "split_lines cs") auto
    then obtain b where b: "cs = l @ b" using split_lines_head_prefix by blast
    have "tidy (c # l)"
      using Cons.prems b tidy_prefix [of "c # l" b] by simp
    with False ls IH show ?thesis by simp
  qed
qed

lemma tidy_join_lines: "\<forall>l \<in> set ls. tidy l \<Longrightarrow> tidy (join_lines ls)"
  by (induction ls rule: join_lines.induct) (simp_all add: tidy_join del: tidy.simps(2))

lemma tidy_trim: "tidy x \<Longrightarrow> tidy (trim x)"
  using trim_infix [of x] tidy_infix by metis

lemma crlf_to_lf_id: "CR \<notin> set x \<Longrightarrow> crlf_to_lf x = x"
  by (induction x rule: crlf_to_lf.induct) auto

lemma cr_to_lf_id: "CR \<notin> set x \<Longrightarrow> cr_to_lf x = x"
  by (auto simp: cr_to_lf_def intro: map_idI)

lemma cr_to_lf_no_CR: "CR \<notin> set (cr_to_lf x)"
  by (auto simp: cr_to_lf_def CR_def LF_def)

lemma set_collapse_runs: "set (collapse_runs cls x) \<subseteq> insert SP (set x)"
proof (induction cls x rule: collapse_runs.induct)
  case (1 cls)
  then show ?case by simp
next
  case (2 cls c cs)
  then show ?case
    using set_dropWhileD [of _ cls cs] by (cases "cls c") auto
qed

lemma normalizeOutput_alt: "normalizeOutput s = trim (join_lines (trimmed_lines s))"
  by (simp add: normalizeOutput_def trimmed_lines_def)

lemma trimmed_lines_props:
  "trimmed_lines s \<noteq> []"
  "\<forall>l \<in> set (trimmed_lines s). ends_clean l \<and> tidy l \<and> LF \<notin> set l \<and> CR \<notin> set l"
proof -
  let ?y = "collapse_runs is_blank (cr_to_lf (crlf_to_lf s))"
  show "trimmed_lines s \<noteq> []"
    by (simp add: trimmed_lines_def split_lines_nonempty)
  have cr: "CR \<notin> set ?y"
    using set_collapse_runs [of is_blank "cr_to_lf (crlf_to_lf s)"] cr_to_lf_no_CR [of "crlf_to_lf s"]
    by (auto simp: CR_def SP_def)
  have "ends_clean (trim l) \<and> tidy (trim l) \<and> LF \<notin> set (trim l) \<and> CR \<notin> set (trim l)"
    if "l \<in> set (split_lines ?y)" for l
  proof -
    have "tidy l" using that tidy_lines [OF tidy_collapse] by blast
    moreover have "LF \<notin> set l" using that by (rule split_lines_no_LF)
    moreover have "CR \<notin> set l" using that cr set_split_lines [of ?y] by blast
    ultimately show ?thesis
      using set_trim [of l] by (auto simp: ends_clean_trim tidy_trim)
  qed
  then show "\<forall>l \<in> set (trimmed_lines s). ends_clean l \<and> tidy l \<and> LF \<notin> set l \<and> CR \<notin> set l"
    by (auto simp: trimmed_lines_def)
qed

lemma normalizeOutput_normal:
  "CR \<notin> set (normalizeOutput s)" "tidy (normalizeOutput s)"
  "\<forall>l \<in> set (split_lines (normalizeOutput s)). ends_clean l"
  "trim (normalizeOutput s) = normalizeOutput s"
proof -
  let ?L = "trimmed_lines s"
  let ?x = "join_lines ?L"
  have lines: "split_lines ?x = ?L"
    using trimmed_lines_props [of s] by (intro split_join_lines) auto
  have "CR \<notin> set ?x"
    using set_join_lines [of ?L] trimmed_lines_props(2) [of s] by (auto simp: CR_def LF_def)
  then show "CR \<notin> set (normalizeOutput s)"
    using set_trim [of ?x] by (auto simp: normalizeOutput_alt)
  have "tidy ?x"
    using trimmed_lines_props(2) [of s] by (intro tidy_join_lines) blast
  then show "tidy (normalizeOutput s)"
    by (simp add: normalizeOutput_alt tidy_trim)
  have "\<forall>l \<in> set (split_lines ?x). ends_clean l"
    using trimmed_lines_props(2) [of s] by (simp add: lines)
  then show "\<forall>l \<in> set (split_lines (normalizeOutput s)). ends_clean l"
    unfolding normalizeOutput_alt by (rule lines_trim)
  show "trim (normalizeOutput s) = normalizeOutput s"
    by (simp add: normalizeOutput_alt trim_idem)
qed

text \<open>
  C9. \<open>normalizeOutput\<close> is idempotent: normalizing a normalized text changes nothing.
\<close>

theorem normalizeOutput_idempotent: "normalizeOutput (normalizeOutput s) = normalizeOutput s"
proof -
  let ?r = "normalizeOutput s"
  have 1: "cr_to_lf (crlf_to_lf ?r) = ?r"
    using normalizeOutput_normal(1) [of s] by (simp add: crlf_to_lf_id cr_to_lf_id)
  have 2: "collapse_runs is_blank ?r = ?r"
    using normalizeOutput_normal(2) [of s] by (rule collapse_tidy_id)
  have 3: "map trim (split_lines ?r) = split_lines ?r"
    using normalizeOutput_normal(3) [of s] by (intro map_idI) (simp add: ends_clean_trim_id)
  have "normalizeOutput ?r = trim (join_lines (map trim (split_lines ?r)))"
    unfolding normalizeOutput_def [of ?r] by (simp only: 1 2)
  also have "\<dots> = trim ?r"
    by (simp only: 3 join_split_lines)
  also have "\<dots> = ?r"
    by (rule normalizeOutput_normal(4))
  finally show ?thesis .
qed

end
